theory Spec2Isabelle
  imports Complex_Main
begin

section \<open>Random-number generator analysis: the generators and the statistical tests\<close>

text \<open>
  The program is Python on top of the standard library's \<open>random\<close> module and NumPy.
  Python integers are unbounded and are modelled by \<open>int\<close>. NumPy's float64 values are
  modelled by \<open>real\<close>; the one place where a Python integer is converted to float64
  and the value decides an integer result (the upper bound of \<open>np.clip\<close>) uses the
  correctly rounded conversion \<open>f64_of_int\<close>. A NaN is the value \<open>None\<close> of
  \<open>real option\<close>. Every exception the code can raise is a value of \<open>error\<close>.
\<close>

datatype error = ValueError | ZeroDivisionError | OverflowError | InvalidCast

subsection \<open>The ambient random sources\<close>

text \<open>
  The module \<open>random\<close> and \<open>np.random\<close> each hold a global generator. A source is
  modelled by the answers it is going to give and the number of draws made so far: the
  \<open>k\<close>-th call \<open>random.randint(a, b)\<close> returns \<open>py_draw g k a b\<close>. What a draw
  may return is the library's documented contract, stated by \<open>py_random_ok\<close> and
  \<open>np_random_ok\<close>; nothing else is assumed of a source.
\<close>

record py_random =
  py_draw :: "nat \<Rightarrow> int \<Rightarrow> int \<Rightarrow> int"
  py_pos :: nat

record np_random =
  np_int_draw :: "nat \<Rightarrow> int \<Rightarrow> int \<Rightarrow> int"
  np_normal_draw :: "nat \<Rightarrow> real \<Rightarrow> real \<Rightarrow> real"
  np_pos :: nat

definition py_random_ok :: "py_random \<Rightarrow> bool" where
  "py_random_ok g = (\<forall>k a b. a \<le> b \<longrightarrow> a \<le> py_draw g k a b \<and> py_draw g k a b \<le> b)"

definition np_random_ok :: "np_random \<Rightarrow> bool" where
  "np_random_ok g =
     (\<forall>k low high. low < high \<longrightarrow> low \<le> np_int_draw g k low high \<and> np_int_draw g k low high < high)"

text \<open>\<open>random.randint(a, b)\<close>: a value of the closed range, ValueError on an empty one.\<close>

definition randint :: "py_random \<Rightarrow> int \<Rightarrow> int \<Rightarrow> error + (int \<times> py_random)" where
  "randint g a b =
     (if b < a then Inl ValueError
      else Inr (py_draw g (py_pos g) a b, g\<lparr>py_pos := Suc (py_pos g)\<rparr>))"

text \<open>
  \<open>np.random.randint(low, high, size=size)\<close>: \<open>size\<close> values of the half-open range
  as an int64 array. The bounds have to fit the element type.
\<close>

definition np_random_randint :: "np_random \<Rightarrow> int \<Rightarrow> int \<Rightarrow> int \<Rightarrow> error + (int list \<times> np_random)" where
  "np_random_randint g low high sz =
     (if low < - (2 ^ 63) \<or> 2 ^ 63 < high then Inl ValueError
      else if high \<le> low then Inl ValueError
      else if sz < 0 then Inl ValueError
      else Inr (map (\<lambda>k. np_int_draw g (np_pos g + k) low high) [0..<nat sz],
                g\<lparr>np_pos := np_pos g + nat sz\<rparr>))"

text \<open>\<open>np.random.normal(loc, scale, size=size)\<close>: \<open>size\<close> float64 draws.\<close>

definition np_random_normal :: "np_random \<Rightarrow> real \<Rightarrow> real \<Rightarrow> int \<Rightarrow> error + (real list \<times> np_random)" where
  "np_random_normal g loc scale sz =
     (if scale < 0 then Inl ValueError
      else if sz < 0 then Inl ValueError
      else Inr (map (\<lambda>k. np_normal_draw g (np_pos g + k) loc scale) [0..<nat sz],
                g\<lparr>np_pos := np_pos g + nat sz\<rparr>))"

subsection \<open>Numbers: true division, float64 conversion, rounding, clipping, casting\<close>

text \<open>
  Python's \<open>a / b\<close> on integers: ZeroDivisionError for \<open>b = 0\<close>, OverflowError when
  the quotient is too large for a float64. The quotient itself is kept exact.
\<close>

definition true_div :: "int \<Rightarrow> int \<Rightarrow> error + real" where
  "true_div a b =
     (if b = 0 then Inl ZeroDivisionError
      else if 2 ^ 1024 - 2 ^ 970 \<le> \<bar>real_of_int a / real_of_int b\<bar> then Inl OverflowError
      else Inr (real_of_int a / real_of_int b))"

text \<open>
  The float64 nearest to a natural number, ties to the even significand: a float64 has
  53 significant bits, so \<open>f64_exponent n\<close> low bits are dropped.
\<close>

fun f64_exponent :: "nat \<Rightarrow> nat" where
  "f64_exponent n = (if n < 2 ^ 53 then 0 else Suc (f64_exponent (n div 2)))"

declare f64_exponent.simps [simp del]

definition f64_of_nat :: "nat \<Rightarrow> nat" where
  "f64_of_nat n =
     (let e = f64_exponent n; q = n div 2 ^ e; r = n mod 2 ^ e
      in if 2 * r < 2 ^ e \<or> (2 * r = 2 ^ e \<and> even q) then q * 2 ^ e else (q + 1) * 2 ^ e)"

definition f64_of_int :: "int \<Rightarrow> error + real" where
  "f64_of_int i =
     (let m = f64_of_nat (nat \<bar>i\<bar>)
      in if 2 ^ 1024 \<le> m then Inl OverflowError
         else Inr (if i < 0 then - real m else real m))"

text \<open>\<open>np.round\<close>: to the nearest integer, a tie to the even one.\<close>

definition np_rint :: "real \<Rightarrow> int" where
  "np_rint x =
     (let f = \<lfloor>x\<rfloor>; d = x - real_of_int f
      in if d < 1 / 2 then f
         else if 1 / 2 < d then f + 1
         else if even f then f else f + 1)"

definition np_round :: "real \<Rightarrow> real" where
  "np_round x = real_of_int (np_rint x)"

text \<open>
  \<open>np.clip(values, a_min, a_max)\<close> on a float64 array with integer bounds: the bounds
  are converted to float64, and each element becomes
  \<open>minimum(maximum(v, a_min), a_max)\<close>.
\<close>

definition np_clip :: "real list \<Rightarrow> int \<Rightarrow> int \<Rightarrow> error + real list" where
  "np_clip values a_min a_max =
     (case f64_of_int a_min of Inl e \<Rightarrow> Inl e | Inr lo \<Rightarrow>
       (case f64_of_int a_max of Inl e \<Rightarrow> Inl e | Inr hi \<Rightarrow>
          Inr (map (\<lambda>v. min (max v lo) hi) values)))"

text \<open>
  \<open>.astype(int)\<close>: truncation towards zero into int64. NumPy leaves the result of an
  out-of-range cast undefined; the model reports it as \<open>InvalidCast\<close>.
\<close>

definition py_trunc :: "real \<Rightarrow> int" where
  "py_trunc x = (if 0 \<le> x then \<lfloor>x\<rfloor> else \<lceil>x\<rceil>)"

definition astype_int :: "real list \<Rightarrow> error + int list" where
  "astype_int values =
     (if \<forall>v \<in> set values. - (2 ^ 63) \<le> py_trunc v \<and> py_trunc v < 2 ^ 63
      then Inr (map py_trunc values) else Inl InvalidCast)"

subsection \<open>The three generators\<close>

text \<open>\<open>[random.randint(0, N - 1) for _ in range(size)]\<close>\<close>

fun randint_loop :: "nat \<Rightarrow> py_random \<Rightarrow> int \<Rightarrow> int \<Rightarrow> error + (int list \<times> py_random)" where
  "randint_loop 0 g a b = Inr ([], g)"
| "randint_loop (Suc n) g a b =
     (case randint g a b of Inl e \<Rightarrow> Inl e | Inr (v, g') \<Rightarrow>
       (case randint_loop n g' a b of Inl e \<Rightarrow> Inl e | Inr (vs, g'') \<Rightarrow> Inr (v # vs, g'')))"

definition c_style_rand :: "py_random \<Rightarrow> int \<Rightarrow> int \<Rightarrow> error + (int list \<times> py_random)" where
  "c_style_rand g N sz = randint_loop (nat sz) g 0 (N - 1)"

definition uniform_rand :: "np_random \<Rightarrow> int \<Rightarrow> int \<Rightarrow> error + (int list \<times> np_random)" where
  "uniform_rand g N sz = np_random_randint g 0 N sz"

definition normal_rand :: "np_random \<Rightarrow> int \<Rightarrow> int \<Rightarrow> error + (int list \<times> np_random)" where
  "normal_rand g N sz =
     (case true_div (N - 1) 2 of Inl e \<Rightarrow> Inl e | Inr mean \<Rightarrow>
     (case true_div (N - 1) 6 of Inl e \<Rightarrow> Inl e | Inr std \<Rightarrow>
     (case np_random_normal g mean std sz of Inl e \<Rightarrow> Inl e | Inr (values, g') \<Rightarrow>
     (case np_clip (map np_round values) 0 (N - 1) of Inl e \<Rightarrow> Inl e | Inr clipped \<Rightarrow>
     (case astype_int clipped of Inl e \<Rightarrow> Inl e | Inr ints \<Rightarrow> Inr (ints, g'))))))"

text \<open>
  The generator as section 4.1 of the specification words it, for comparison with
  \<open>c_style_rand\<close>: each value is a full-range draw, from \<open>0\<close> to \<open>rand_max\<close>,
  reduced modulo \<open>N\<close> (C's \<open>rand() % N\<close>).
\<close>

fun modulo_loop :: "nat \<Rightarrow> py_random \<Rightarrow> int \<Rightarrow> int \<Rightarrow> error + (int list \<times> py_random)" where
  "modulo_loop 0 g rand_max N = Inr ([], g)"
| "modulo_loop (Suc n) g rand_max N =
     (case randint g 0 rand_max of Inl e \<Rightarrow> Inl e | Inr (r, g') \<Rightarrow>
       (if N = 0 then Inl ZeroDivisionError
        else (case modulo_loop n g' rand_max N of Inl e \<Rightarrow> Inl e
              | Inr (vs, g'') \<Rightarrow> Inr (r mod N # vs, g''))))"

definition modulo_uniform :: "int \<Rightarrow> py_random \<Rightarrow> int \<Rightarrow> int \<Rightarrow> error + (int list \<times> py_random)" where
  "modulo_uniform rand_max g N sz = modulo_loop (nat sz) g rand_max N"

subsection \<open>Concrete sources\<close>

text \<open>
  Four sources used to run the generators on concrete inputs. \<open>py_counting\<close> and
  \<open>np_counting\<close> answer the \<open>k\<close>-th integer draw with the \<open>k\<close>-th value of the
  requested range (the last one once the range is exhausted), and the \<open>k\<close>-th normal
  draw with a value four standard deviations above or below the mean. \<open>py_top\<close>
  answers every draw with the largest value of the requested range. \<open>np_far\<close>
  answers every normal draw with \<open>10^16\<close>, a float64.
\<close>

definition py_counting :: py_random where
  "py_counting = \<lparr>py_draw = (\<lambda>k a b. min b (a + int k)), py_pos = 0\<rparr>"

definition py_top :: py_random where
  "py_top = \<lparr>py_draw = (\<lambda>k a b. b), py_pos = 0\<rparr>"

definition np_counting :: np_random where
  "np_counting =
     \<lparr>np_int_draw = (\<lambda>k low high. min (high - 1) (low + int k)),
      np_normal_draw = (\<lambda>k loc scale. if even k then loc + 4 * scale else loc - 4 * scale),
      np_pos = 0\<rparr>"

definition np_far :: np_random where
  "np_far =
     \<lparr>np_int_draw = (\<lambda>k low high. low),
      np_normal_draw = (\<lambda>k loc scale. 10000000000000000),
      np_pos = 0\<rparr>"

subsection \<open>Array helpers of the tests\<close>

text \<open>
  A sample is the list of integers a generator returned. \<open>range(N)\<close> is
  \<open>[0..N - 1]\<close>, empty for \<open>N \<le> 0\<close>; \<open>Counter(samples).get(i, 0)\<close> is
  \<open>count_list samples i\<close>.
\<close>

definition py_range :: "int \<Rightarrow> int list" where
  "py_range N = [0..N - 1]"

text \<open>\<open>np.diff(a)\<close>: \<open>a[1:] - a[:-1]\<close>.\<close>

fun np_diff :: "int list \<Rightarrow> int list" where
  "np_diff (x # y # r) = (y - x) # np_diff (y # r)"
| "np_diff r = []"

text \<open>\<open>np.concatenate\<close> refuses an empty sequence of arrays.\<close>

definition np_concatenate :: "'a list list \<Rightarrow> error + 'a list" where
  "np_concatenate arrays = (if arrays = [] then Inl ValueError else Inr (concat arrays))"


subsection \<open>Distribution test: frequencies and inter-occurrence intervals\<close>

text \<open>
  \<open>positions\<close> is a \<open>defaultdict(list)\<close>: a dictionary in insertion order, modelled
  by an association list. \<open>positions[val].append(idx)\<close> extends the entry of
  \<open>val\<close>, creating it at the end when the key is new.
\<close>

fun append_position :: "(int \<times> nat list) list \<Rightarrow> int \<Rightarrow> nat \<Rightarrow> (int \<times> nat list) list" where
  "append_position [] val idx = [(val, [idx])]"
| "append_position ((k, pos) # rest) val idx =
     (if k = val then (k, pos @ [idx]) # rest else (k, pos) # append_position rest val idx)"

fun positions_loop :: "(int \<times> nat list) list \<Rightarrow> nat \<Rightarrow> int list \<Rightarrow> (int \<times> nat list) list" where
  "positions_loop positions idx [] = positions"
| "positions_loop positions idx (val # rest) =
     positions_loop (append_position positions val idx) (Suc idx) rest"

definition intervals :: "int list \<Rightarrow> error + int list" where
  "intervals samples =
     np_concatenate (map (\<lambda>(val, pos). np_diff (map int pos)) (positions_loop [] 0 samples))"

text \<open>
  The two datasets \<open>distribution_test\<close> hands to the plots: the frequency dictionary
  over \<open>range(N)\<close> and the interval array.
\<close>

definition distribution_test :: "int list \<Rightarrow> int \<Rightarrow> error + ((int \<times> nat) list \<times> int list)" where
  "distribution_test samples N =
     (let freq = map (\<lambda>k. (k, count_list samples k)) (py_range N)
      in (case intervals samples of Inl e \<Rightarrow> Inl e | Inr iv \<Rightarrow> Inr (freq, iv)))"

subsection \<open>Goodness-of-fit check: the arrays handed to the chi-square test\<close>

text \<open>
  \<open>observed\<close> and \<open>expected\<close> as \<open>distribution_check\<close> builds them before it calls
  \<open>stats.chisquare\<close>. The quotient \<open>len(samples) / N\<close> raises for \<open>N = 0\<close>, and
  \<open>np.full\<close> refuses a negative length.
\<close>

definition observed :: "int list \<Rightarrow> int \<Rightarrow> nat list" where
  "observed samples N = map (\<lambda>i. count_list samples i) (py_range N)"

definition distribution_check :: "int list \<Rightarrow> int \<Rightarrow> error + (nat list \<times> real list)" where
  "distribution_check samples N =
     (if N = 0 then Inl ZeroDivisionError
      else if N < 0 then Inl ValueError
      else Inr (observed samples N, replicate (nat N) (real (length samples) / real_of_int N)))"

subsection \<open>Randomness test: lag-1 autocorrelation and run count\<close>











subsection \<open>Performance test: the reported throughput\<close>


subsection \<open>Entropy test\<close>


section \<open>Properties of the generators\<close>

subsection \<open>Auxiliary facts\<close>

lemma randint_loop_draws:
  "a \<le> b \<Longrightarrow> randint_loop n g a b =
     Inr (map (\<lambda>k. py_draw g (py_pos g + k) a b) [0..<n], g\<lparr>py_pos := py_pos g + n\<rparr>)"
proof (induction n arbitrary: g)
  case 0
  then show ?case by simp
next
  case (Suc n)
  have "map (\<lambda>k. py_draw g (py_pos g + k) a b) [0..<Suc n] =
        py_draw g (py_pos g) a b # map (\<lambda>k. py_draw g (Suc (py_pos g) + k) a b) [0..<n]"
    by (simp add: upt_rec[of 0] map_Suc_upt[symmetric] del: upt_Suc)
  with Suc show ?case
    by (simp add: randint_def del: upt_Suc)
qed

lemma f64_of_nat_small: "n < 2 ^ 53 \<Longrightarrow> f64_of_nat n = n"
  by (simp add: f64_of_nat_def f64_exponent.simps)

lemma f64_of_int_small:
  assumes "0 \<le> i" "i < 2 ^ 53"
  shows "f64_of_int i = Inr (real_of_int i)"
proof -
  have n: "nat \<bar>i\<bar> < 2 ^ 53" using assms by (simp add: nat_less_iff)
  have "(nat \<bar>i\<bar>) < 2 ^ 1024"
    by (rule less_trans[OF n]) simp
  with assms n show ?thesis
    by (simp add: f64_of_int_def f64_of_nat_small Let_def not_le)
qed

lemma true_div_small:
  assumes "0 \<le> i" "i < 2 ^ 53" "0 < d"
  shows "true_div i d = Inr (real_of_int i / real_of_int d)"
proof -
  have "real_of_int i / real_of_int d \<le> real_of_int i"
    using assms by (simp add: divide_le_eq mult_le_cancel_left1) 
  moreover have "real_of_int i < 2 ^ 53" using assms(2)
    by (metis of_int_less_numeral_power_cancel_iff)
  moreover have "(2::real) ^ 53 < 2 ^ 1024 - 2 ^ 970" by simp
  moreover have "0 \<le> real_of_int i / real_of_int d" using assms by simp
  ultimately show ?thesis using assms
    by (simp add: true_div_def)
qed

lemma py_trunc_of_int: "py_trunc (real_of_int k) = k"
  by (simp add: py_trunc_def)

lemma clip_of_int:
  "min (max (real_of_int r) (real_of_int lo)) (real_of_int hi) = real_of_int (min (max r lo) hi)"
  by (simp add: min_def max_def)

lemma normal_rand_small:
  assumes "1 \<le> N" "N \<le> 2 ^ 53" "0 \<le> sz"
  shows "normal_rand g N sz =
     Inr (map (\<lambda>k. min (max (np_rint (np_normal_draw g (np_pos g + k)
       (real_of_int (N - 1) / 2) (real_of_int (N - 1) / 6))) 0) (N - 1)) [0..<nat sz],
          g\<lparr>np_pos := np_pos g + nat sz\<rparr>)"
proof -
  have b: "0 \<le> N - 1" "N - 1 < 2 ^ 53" using assms by simp_all
  have m: "true_div (N - 1) 2 = Inr (real_of_int (N - 1) / 2)"
    using true_div_small[OF b, of 2] by simp
  have s: "true_div (N - 1) 6 = Inr (real_of_int (N - 1) / 6)"
    using true_div_small[OF b, of 6] by simp
  have hi: "f64_of_int (N - 1) = Inr (real_of_int (N - 1))"
    by (rule f64_of_int_small[OF b])
  have lo: "f64_of_int 0 = Inr 0"
    using f64_of_int_small[of 0] by simp
  have r: "- (2 ^ 63) \<le> min (max x 0) (N - 1) \<and> min (max x 0) (N - 1) < 2 ^ 63" for x
    using b by (auto simp: min_def max_def)
  have c: "min (max (real_of_int x) 0) (real_of_int (N - 1)) = real_of_int (min (max x 0) (N - 1))" for x
    using clip_of_int[of x 0 "N - 1"] by simp
  show ?thesis
    using assms b r
    by (simp add: normal_rand_def m s np_random_normal_def np_clip_def hi lo astype_int_def
        np_round_def c py_trunc_of_int o_def del: of_int_diff)
qed

lemma py_counting_ok: "py_random_ok py_counting"
  by (simp add: py_random_ok_def py_counting_def)

lemma np_counting_ok: "np_random_ok np_counting"
  by (simp add: np_random_ok_def np_counting_def min_def)

subsection \<open>Length and range of the generated samples\<close>

text \<open>
  Claim C1, as the code has it. For every \<open>size > 0\<close>, each generator returns exactly
  \<open>size\<close> integers, every one in \<open>[0, N)\<close>, and changes nothing but the position of
  its random source, which advances by \<open>size\<close> draws: \<open>c_style_rand\<close> for every
  \<open>N > 0\<close>, \<open>uniform_rand\<close> for \<open>0 < N \<le> 2^63\<close> (the values are int64), and
  \<open>normal_rand\<close> for \<open>0 < N \<le> 2^53\<close> (where the bound \<open>N - 1\<close> is a float64).
\<close>

theorem generators_length_and_range:
  "(py_random_ok g \<and> 0 < N \<and> 0 < sz \<longrightarrow>
      (\<exists>vs. c_style_rand g N sz = Inr (vs, g\<lparr>py_pos := py_pos g + nat sz\<rparr>)
            \<and> int (length vs) = sz \<and> (\<forall>v \<in> set vs. 0 \<le> v \<and> v < N)))
   \<and> (np_random_ok h \<and> 0 < N \<and> N \<le> 2 ^ 63 \<and> 0 < sz \<longrightarrow>
      (\<exists>vs. uniform_rand h N sz = Inr (vs, h\<lparr>np_pos := np_pos h + nat sz\<rparr>)
            \<and> int (length vs) = sz \<and> (\<forall>v \<in> set vs. 0 \<le> v \<and> v < N)))
   \<and> (0 < N \<and> N \<le> 2 ^ 53 \<and> 0 < sz \<longrightarrow>
      (\<exists>vs. normal_rand h N sz = Inr (vs, h\<lparr>np_pos := np_pos h + nat sz\<rparr>)
            \<and> int (length vs) = sz \<and> (\<forall>v \<in> set vs. 0 \<le> v \<and> v < N)))"
proof (intro conjI impI)
  assume a: "py_random_ok g \<and> 0 < N \<and> 0 < sz"
  then have "c_style_rand g N sz =
      Inr (map (\<lambda>k. py_draw g (py_pos g + k) 0 (N - 1)) [0..<nat sz], g\<lparr>py_pos := py_pos g + nat sz\<rparr>)"
    by (simp add: c_style_rand_def randint_loop_draws)
  moreover have "0 \<le> py_draw g k 0 (N - 1) \<and> py_draw g k 0 (N - 1) < N" for k
  proof -
    have "0 \<le> N - 1" using a by simp
    with a have "0 \<le> py_draw g k 0 (N - 1) \<and> py_draw g k 0 (N - 1) \<le> N - 1"
      unfolding py_random_ok_def by blast
    then show ?thesis by simp
  qed
  ultimately show "\<exists>vs. c_style_rand g N sz = Inr (vs, g\<lparr>py_pos := py_pos g + nat sz\<rparr>)
            \<and> int (length vs) = sz \<and> (\<forall>v \<in> set vs. 0 \<le> v \<and> v < N)"
    using a by auto
next
  assume a: "np_random_ok h \<and> 0 < N \<and> N \<le> 2 ^ 63 \<and> 0 < sz"
  then have "0 \<le> np_int_draw h k 0 N \<and> np_int_draw h k 0 N < N" for k
    unfolding np_random_ok_def by blast
  then show "\<exists>vs. uniform_rand h N sz = Inr (vs, h\<lparr>np_pos := np_pos h + nat sz\<rparr>)
            \<and> int (length vs) = sz \<and> (\<forall>v \<in> set vs. 0 \<le> v \<and> v < N)"
    using a by (auto simp: uniform_rand_def np_random_randint_def)
next
  assume a: "0 < N \<and> N \<le> 2 ^ 53 \<and> 0 < sz"
  then show "\<exists>vs. normal_rand h N sz = Inr (vs, h\<lparr>np_pos := np_pos h + nat sz\<rparr>)
            \<and> int (length vs) = sz \<and> (\<forall>v \<in> set vs. 0 \<le> v \<and> v < N)"
    by (auto simp: normal_rand_small)
qed

text \<open>
  The theorem at \<open>N = 6\<close>, \<open>size = 3\<close> on the counting sources, whose hypotheses hold
  there: three values each, all in \<open>[0, 6)\<close>, and three draws consumed.
\<close>

theorem generators_length_and_range_witness:
  "c_style_rand py_counting 6 3 = Inr ([0, 1, 2], py_counting\<lparr>py_pos := 3\<rparr>)
   \<and> uniform_rand np_counting 6 3 = Inr ([0, 1, 2], np_counting\<lparr>np_pos := 3\<rparr>)
   \<and> normal_rand np_counting 6 3 = Inr ([5, 0, 5], np_counting\<lparr>np_pos := 3\<rparr>)"
proof -
  have c: "c_style_rand py_counting 6 3 = Inr ([0, 1, 2], py_counting\<lparr>py_pos := 3\<rparr>)"
    by (simp add: c_style_rand_def randint_def py_counting_def numeral_3_eq_3)
  have u: "uniform_rand np_counting 6 3 = Inr ([0, 1, 2], np_counting\<lparr>np_pos := 3\<rparr>)"
    by (simp add: uniform_rand_def np_random_randint_def np_counting_def upt_rec)
  have n: "normal_rand np_counting 6 3 = Inr ([5, 0, 5], np_counting\<lparr>np_pos := 3\<rparr>)"
    using normal_rand_small[of 6 3 np_counting]
    by (simp add: np_counting_def np_rint_def upt_rec)
  from generators_length_and_range[of py_counting 6 3 np_counting] py_counting_ok np_counting_ok c u n
  show ?thesis by simp
qed

text \<open>
  Claim C1 as stated, for every \<open>N > 0\<close>, fails: \<open>np.random.randint(0, N, size=1)\<close>
  raises ValueError for \<open>N = 2^63 + 1\<close>, whose upper bound is out of bounds for int64.
\<close>

theorem uniform_rand_out_of_int64:
  "np_random_ok np_counting \<and> uniform_rand np_counting (2 ^ 63 + 1) 1 = Inl ValueError"
  by (simp add: np_counting_ok uniform_rand_def np_random_randint_def)

subsection \<open>The modulo-uniform generator draws from the range directly\<close>

text \<open>
  Claim C2 at \<open>N = 3\<close>, \<open>size = 1\<close>. \<open>c_style_rand\<close> asks the source for a value of
  \<open>{0, 1, 2}\<close> and returns it as drawn: on the source that answers with the largest
  value of the range, the result is \<open>2\<close>. A draw from the full range \<open>0..32767\<close>
  reduced modulo \<open>3\<close> gives \<open>32767 mod 3 = 1\<close> on the same source.
\<close>

theorem c_style_rand_draws_directly:
  "c_style_rand py_top 3 1 = Inr ([2], py_top\<lparr>py_pos := 1\<rparr>)
   \<and> modulo_uniform 32767 py_top 3 1 = Inr ([1], py_top\<lparr>py_pos := 1\<rparr>)"
  by (simp add: c_style_rand_def modulo_uniform_def randint_def py_top_def)

subsection \<open>The clipped normal generator\<close>

text \<open>
  Claim C5, as the code has it. For \<open>1 \<le> N \<le> 2^53\<close>, element \<open>k\<close> of the result of
  \<open>normal_rand\<close> is the \<open>k\<close>-th draw of the source for the mean \<open>(N - 1) / 2\<close> and the
  standard deviation \<open>(N - 1) / 6\<close>, rounded to the nearest integer and clamped into
  \<open>[0, N - 1]\<close>; so no element lies outside \<open>[0, N - 1]\<close>, and for \<open>N = 1\<close> every
  element is \<open>0\<close>.
\<close>

theorem normal_rand_rounds_and_clamps:
  "1 \<le> N \<and> N \<le> 2 ^ 53 \<and> 0 \<le> sz \<longrightarrow>
     normal_rand g N sz =
       Inr (map (\<lambda>k. min (max (np_rint (np_normal_draw g (np_pos g + k)
                (real_of_int (N - 1) / 2) (real_of_int (N - 1) / 6))) 0) (N - 1)) [0..<nat sz],
            g\<lparr>np_pos := np_pos g + nat sz\<rparr>)
     \<and> (\<forall>vs g'. normal_rand g N sz = Inr (vs, g') \<longrightarrow>
           (\<forall>v \<in> set vs. 0 \<le> v \<and> v \<le> N - 1) \<and> (N = 1 \<longrightarrow> (\<forall>v \<in> set vs. v = 0)))"
proof (intro impI)
  assume a: "1 \<le> N \<and> N \<le> 2 ^ 53 \<and> 0 \<le> sz"
  then have eq: "normal_rand g N sz =
       Inr (map (\<lambda>k. min (max (np_rint (np_normal_draw g (np_pos g + k)
                (real_of_int (N - 1) / 2) (real_of_int (N - 1) / 6))) 0) (N - 1)) [0..<nat sz],
            g\<lparr>np_pos := np_pos g + nat sz\<rparr>)"
    by (simp add: normal_rand_small)
  have "0 \<le> min (max x 0) (N - 1) \<and> min (max x 0) (N - 1) \<le> N - 1" for x
    using a by simp
  moreover have "N = 1 \<Longrightarrow> min (max x 0) (N - 1) = 0" for x
    by simp
  ultimately show "normal_rand g N sz =
       Inr (map (\<lambda>k. min (max (np_rint (np_normal_draw g (np_pos g + k)
                (real_of_int (N - 1) / 2) (real_of_int (N - 1) / 6))) 0) (N - 1)) [0..<nat sz],
            g\<lparr>np_pos := np_pos g + nat sz\<rparr>)
     \<and> (\<forall>vs g'. normal_rand g N sz = Inr (vs, g') \<longrightarrow>
           (\<forall>v \<in> set vs. 0 \<le> v \<and> v \<le> N - 1) \<and> (N = 1 \<longrightarrow> (\<forall>v \<in> set vs. v = 0)))"
    unfolding eq by auto
qed

text \<open>
  The theorem at \<open>N = 7\<close>, where the draws \<open>3 + 4\<close> and \<open>3 - 4\<close> are clamped to \<open>6\<close>
  and \<open>0\<close>, and at \<open>N = 1\<close>.
\<close>

theorem normal_rand_rounds_and_clamps_witness:
  "normal_rand np_counting 7 4 = Inr ([6, 0, 6, 0], np_counting\<lparr>np_pos := 4\<rparr>)
   \<and> normal_rand np_counting 1 2 = Inr ([0, 0], np_counting\<lparr>np_pos := 2\<rparr>)"
  using normal_rand_rounds_and_clamps[of 7 4 np_counting] normal_rand_rounds_and_clamps[of 1 2 np_counting]
  by (simp add: np_counting_def np_rint_def upt_rec)

text \<open>
  Claim C5 as stated, for every \<open>N\<close>, fails at \<open>N = 2^53 + 4\<close>: the bound
  \<open>N - 1 = 2^53 + 3\<close> is no float64 and \<open>np.clip\<close> converts it to \<open>2^53 + 4\<close>, so
  the draw \<open>10^16\<close> is clamped to \<open>N\<close> itself, outside \<open>[0, N - 1]\<close>.
\<close>

theorem normal_rand_upper_bound_rounds_up:
  "normal_rand np_far (2 ^ 53 + 4) 1 = Inr ([2 ^ 53 + 4], np_far\<lparr>np_pos := 1\<rparr>)"
  by (simp add: normal_rand_def true_div_def np_random_normal_def np_far_def np_clip_def f64_of_int_def
      f64_of_nat_def f64_exponent.simps astype_int_def np_round_def np_rint_def py_trunc_def)

section \<open>Properties of the statistical tests\<close>

subsection \<open>The observed frequencies of the goodness-of-fit check\<close>

lemma length_py_range: "0 \<le> N \<Longrightarrow> length (py_range N) = nat N"
  by (simp add: py_range_def)

lemma nth_py_range: "0 \<le> i \<Longrightarrow> i < N \<Longrightarrow> py_range N ! nat i = i"
  by (simp add: py_range_def)

lemma sum_list_observed:
  assumes "\<forall>v \<in> set samples. 0 \<le> v \<and> v < N"
  shows "sum_list (observed samples N) = length samples"
proof -
  have "sum_list (observed samples N) = sum (count_list samples) {0..N - 1}"
    by (simp add: observed_def py_range_def sum_list_distinct_conv_sum_set)
  also have "\<dots> = length samples"
    using assms by (intro sum_count_set) auto
  finally show ?thesis .
qed

text \<open>
  Claim C7. For \<open>N > 0\<close> and a sample with values in \<open>[0, N)\<close>, \<open>distribution_check\<close>
  hands \<open>stats.chisquare\<close> an observed array of exactly \<open>N\<close> entries, entry \<open>i\<close> being
  the number of occurrences of \<open>i\<close> (so \<open>0\<close> for an absent value), whose sum is the
  length of the sample, together with the expected count \<open>len(samples) / N\<close> for each
  of the \<open>N\<close> values.
\<close>

theorem observed_frequencies:
  "0 < N \<and> (\<forall>v \<in> set samples. 0 \<le> v \<and> v < N) \<longrightarrow>
     distribution_check samples N =
       Inr (observed samples N, replicate (nat N) (real (length samples) / real_of_int N))
     \<and> int (length (observed samples N)) = N
     \<and> (\<forall>i. 0 \<le> i \<and> i < N \<longrightarrow> observed samples N ! nat i = count_list samples i)
     \<and> sum_list (observed samples N) = length samples"
proof (intro impI conjI allI)
  assume a: "0 < N \<and> (\<forall>v \<in> set samples. 0 \<le> v \<and> v < N)"
  show "distribution_check samples N =
       Inr (observed samples N, replicate (nat N) (real (length samples) / real_of_int N))"
    using a by (simp add: distribution_check_def)
  show "int (length (observed samples N)) = N"
    using a by (simp add: observed_def length_py_range)
  show "sum_list (observed samples N) = length samples"
    using a by (simp add: sum_list_observed)
  show "observed samples N ! nat i = count_list samples i" if "0 \<le> i \<and> i < N" for i
    using that by (simp add: observed_def length_py_range nth_py_range)
qed

text \<open>The theorem on the sample \<open>[2, 0, 2, 2]\<close> with \<open>N = 3\<close>.\<close>

theorem observed_frequencies_witness:
  "distribution_check [2, 0, 2, 2] 3 = Inr ([1, 0, 3], [4 / 3, 4 / 3, 4 / 3])
   \<and> sum_list (observed [2, 0, 2, 2] 3) = 4"
  using observed_frequencies[of 3 "[2, 0, 2, 2]"]
  by (simp add: observed_def py_range_def upto.simps numeral_3_eq_3)

subsection \<open>The intervals of a sample without repetition\<close>

lemma append_position_new:
  "val \<notin> fst ` set d \<Longrightarrow> append_position d val idx = d @ [(val, [idx])]"
  by (induction d val idx rule: append_position.induct) auto

lemma positions_loop_distinct:
  "distinct vals \<Longrightarrow> set vals \<inter> fst ` set d = {} \<Longrightarrow>
     positions_loop d idx vals = d @ map2 (\<lambda>i v. (v, [i])) [idx..<idx + length vals] vals"
proof (induction vals arbitrary: d idx)
  case Nil
  then show ?case by simp
next
  case (Cons v vals)
  have new: "v \<notin> fst ` set d" using Cons.prems by auto
  have "set vals \<inter> fst ` set (d @ [(v, [idx])]) = {}"
    using Cons.prems by auto
  with Cons have "positions_loop (d @ [(v, [idx])]) (Suc idx) vals =
      (d @ [(v, [idx])]) @ map2 (\<lambda>i v. (v, [i])) [Suc idx..<Suc idx + length vals] vals"
    by simp
  moreover have "[idx..<idx + length (v # vals)] = idx # [Suc idx..<Suc idx + length vals]"
    by (simp add: upt_conv_Cons del: upt_Suc)
  ultimately show ?case
    by (simp add: append_position_new[OF new] del: upt_Suc)
qed

text \<open>
  Claim C9. For a sample that is not empty and in which no value occurs twice, the
  interval computation of \<open>distribution_test\<close> raises nothing and yields the empty
  array.
\<close>

theorem intervals_of_distinct_sample:
  "samples \<noteq> [] \<and> distinct samples \<longrightarrow> intervals samples = Inr []"
proof
  assume a: "samples \<noteq> [] \<and> distinct samples"
  then have p: "positions_loop [] 0 samples = map2 (\<lambda>i v. (v, [i])) [0..<length samples] samples"
    using positions_loop_distinct[of samples "[]" 0] by simp
  have "concat (map (\<lambda>(val, pos). np_diff (map int pos)) (map2 (\<lambda>i v. (v, [i])) js vs)) = []" for js :: "nat list" and vs :: "int list"
    by (induction js vs rule: list_induct2') auto
  with a show "intervals samples = Inr []"
    by (simp add: intervals_def p np_concatenate_def)
qed

text \<open>
  The theorem on \<open>[4, 1, 3]\<close>; beside it a sample with repetitions, whose intervals
  are the gaps between the positions of \<open>4\<close> and of \<open>1\<close>.
\<close>

theorem intervals_of_distinct_sample_witness:
  "intervals [4, 1, 3] = Inr [] \<and> intervals [4, 1, 4, 1, 1] = Inr [2, 2, 1]"
  using intervals_of_distinct_sample[of "[4, 1, 3]"]
  by (simp add: intervals_def np_concatenate_def)

subsection \<open>The run count\<close>










subsection \<open>The lag-1 autocorrelation on degenerate samples\<close>










subsection \<open>The throughput of the performance test\<close>




subsection \<open>The entropy\<close>





end
